theory Spec2Isabelle
  imports Complex_Main "HOL-Library.Multiset"
begin

section \<open>JavaScript numbers and JSON values\<close>

text \<open>
  A JavaScript \<^verbatim>\<open>number\<close> is modelled as a real number or one of the three
  non-finite values. Finite doubles are idealised as reals (no rounding, no overflow
  and no negative zero); the non-finite values are kept because the code reaches them:
  \<^verbatim>\<open>undefined + 1\<close> is \<^verbatim>\<open>NaN\<close> and \<^verbatim>\<open>x / 0\<close> is
  an infinity.
\<close>

datatype jsnum = NaN | NInf | Fin real | PInf

text \<open>
  A field of an object that came out of \<^verbatim>\<open>JSON.parse\<close>: absent
  (\<^verbatim>\<open>undefined\<close>), \<^verbatim>\<open>null\<close> or a number.
\<close>

datatype jsval = Undefined | Null | Num jsnum

text \<open>\<^verbatim>\<open>ToNumber\<close>: what arithmetic and comparison make of a field.\<close>

fun ToNumber :: "jsval \<Rightarrow> jsnum" where
  "ToNumber Undefined = NaN"
| "ToNumber Null = Fin 0"
| "ToNumber (Num n) = n"

fun js_neg :: "jsnum \<Rightarrow> jsnum" where
  "js_neg NaN = NaN"
| "js_neg NInf = PInf"
| "js_neg (Fin x) = Fin (- x)"
| "js_neg PInf = NInf"

fun js_add :: "jsnum \<Rightarrow> jsnum \<Rightarrow> jsnum" where
  "js_add NaN b = NaN"
| "js_add a NaN = NaN"
| "js_add (Fin x) (Fin y) = Fin (x + y)"
| "js_add PInf NInf = NaN"
| "js_add NInf PInf = NaN"
| "js_add PInf b = PInf"
| "js_add a PInf = PInf"
| "js_add NInf b = NInf"
| "js_add a NInf = NInf"

definition js_sub :: "jsnum \<Rightarrow> jsnum \<Rightarrow> jsnum" where
  "js_sub a b = js_add a (js_neg b)"

text \<open>The sign of a number that is not \<^verbatim>\<open>NaN\<close>: is it below zero?\<close>

fun js_negative :: "jsnum \<Rightarrow> bool" where
  "js_negative NInf = True"
| "js_negative (Fin x) = (x < 0)"
| "js_negative a = False"

fun js_mul :: "jsnum \<Rightarrow> jsnum \<Rightarrow> jsnum" where
  "js_mul NaN b = NaN"
| "js_mul a NaN = NaN"
| "js_mul (Fin x) (Fin y) = Fin (x * y)"
| "js_mul a b =
     (if a = Fin 0 \<or> b = Fin 0 then NaN
      else if js_negative a = js_negative b then PInf else NInf)"

fun js_div :: "jsnum \<Rightarrow> jsnum \<Rightarrow> jsnum" where
  "js_div NaN b = NaN"
| "js_div a NaN = NaN"
| "js_div (Fin x) (Fin y) =
     (if y \<noteq> 0 then Fin (x / y)
      else if x = 0 then NaN
      else if 0 < x then PInf else NInf)"
| "js_div (Fin x) b = Fin 0"
| "js_div a (Fin y) = (if js_negative a = (y < 0) then PInf else NInf)"
| "js_div a b = NaN"

text \<open>\<^verbatim>\<open>a < b\<close> and \<^verbatim>\<open>a <= b\<close>: false as soon as one side is \<^verbatim>\<open>NaN\<close>.\<close>

fun js_le :: "jsnum \<Rightarrow> jsnum \<Rightarrow> bool" where
  "js_le NaN b = False"
| "js_le a NaN = False"
| "js_le NInf b = True"
| "js_le a PInf = True"
| "js_le (Fin x) (Fin y) = (x \<le> y)"
| "js_le a b = False"

definition js_less :: "jsnum \<Rightarrow> jsnum \<Rightarrow> bool" where
  "js_less a b = (js_le a b \<and> a \<noteq> b)"

fun Math_max :: "jsnum \<Rightarrow> jsnum \<Rightarrow> jsnum" where
  "Math_max NaN b = NaN"
| "Math_max a NaN = NaN"
| "Math_max a b = (if js_le a b then b else a)"

fun Math_min :: "jsnum \<Rightarrow> jsnum \<Rightarrow> jsnum" where
  "Math_min NaN b = NaN"
| "Math_min a NaN = NaN"
| "Math_min a b = (if js_le a b then a else b)"

fun Math_exp :: "jsnum \<Rightarrow> jsnum" where
  "Math_exp NaN = NaN"
| "Math_exp NInf = Fin 0"
| "Math_exp (Fin x) = Fin (exp x)"
| "Math_exp PInf = PInf"

fun Math_log :: "jsnum \<Rightarrow> jsnum" where
  "Math_log NaN = NaN"
| "Math_log NInf = NaN"
| "Math_log (Fin x) = (if x < 0 then NaN else if x = 0 then NInf else Fin (ln x))"
| "Math_log PInf = PInf"

text \<open>\<^verbatim>\<open>Math.pow(0.9, e)\<close>, the only power the scheduler takes.\<close>

fun Math_pow_0_9 :: "jsnum \<Rightarrow> jsnum" where
  "Math_pow_0_9 NaN = NaN"
| "Math_pow_0_9 NInf = PInf"
| "Math_pow_0_9 (Fin x) = Fin ((9 / 10) powr x)"
| "Math_pow_0_9 PInf = Fin 0"

text \<open>\<^verbatim>\<open>Math.round\<close>: the nearest integer, a tie going up.\<close>

fun Math_round :: "jsnum \<Rightarrow> jsnum" where
  "Math_round (Fin x) = Fin (of_int \<lfloor>x + 1 / 2\<rfloor>)"
| "Math_round a = a"

text \<open>
  \<^verbatim>\<open>JSON.parse(JSON.stringify(v))\<close> on a field: a non-finite number is written
  as \<^verbatim>\<open>null\<close>, an absent field stays absent.
\<close>

fun json_field :: "jsval \<Rightarrow> jsval" where
  "json_field (Num (Fin x)) = Num (Fin x)"
| "json_field (Num a) = Null"
| "json_field v = v"

section \<open>Time\<close>

text \<open>
  An instant is its number of milliseconds since the epoch, read on the local clock
  (a zone without daylight saving). \<^verbatim>\<open>toISOString\<close> and \<^verbatim>\<open>new Date(string)\<close>
  are inverse on valid dates, so a stored date string is the instant itself. The
  instant of \<^verbatim>\<open>new Date()\<close> is a parameter \<open>now\<close> of every operation.
\<close>

type_synonym instant = int

definition ms_per_day :: int where
  "ms_per_day = 1000 * 60 * 60 * 24"

text \<open>\<^verbatim>\<open>toDateString\<close> names the calendar day; the model uses the day's number.\<close>

definition toDateString :: "instant \<Rightarrow> int" where
  "toDateString t = t div ms_per_day"

text \<open>\<^verbatim>\<open>new Date(dateStr)\<close> of a day string is that day's midnight.\<close>

definition Date_of_day :: "int \<Rightarrow> instant" where
  "Date_of_day d = d * ms_per_day"

datatype js_error = SyntaxError | RangeError | TypeError | Error string

text \<open>
  \<^verbatim>\<open>d.setDate(d.getDate() + n); d.toISOString()\<close> for a day count \<open>n\<close> that
  \<^verbatim>\<open>Math.round\<close> returned: the date moves by \<open>n\<close> days; a day count that is
  not finite makes the date invalid, and \<^verbatim>\<open>toISOString\<close> of an invalid date
  throws a RangeError. Instants are unbounded, as the reals are: the end of the range
  of \<^verbatim>\<open>Date\<close> is not modelled.
\<close>

fun setDate_toISOString :: "instant \<Rightarrow> jsnum \<Rightarrow> js_error + instant" where
  "setDate_toISOString t (Fin n) = Inr (t + \<lfloor>n\<rfloor> * ms_per_day)"
| "setDate_toISOString t a = Inl RangeError"

section \<open>The FSRS service\<close>

record FSRSParams =
  difficulty :: jsval
  stability :: jsval
  retrievability :: jsval
  last_review :: "instant option"
  next_review :: instant
  review_count :: jsval

datatype ReviewResult = AGAIN | HARD | GOOD | EASY

definition INITIAL_STABILITY :: jsnum where
  "INITIAL_STABILITY = Fin (4 / 10)"

definition DIFFICULTY_DECAY :: jsnum where
  "DIFFICULTY_DECAY = Fin (- (5 / 10))"

definition initializeParams :: "instant \<Rightarrow> FSRSParams" where
  "initializeParams now =
     \<lparr> difficulty = Num (Fin 0),
       stability = Num INITIAL_STABILITY,
       retrievability = Num (Fin 1),
       last_review = None,
       next_review = now + 1 * ms_per_day,
       review_count = Num (Fin 0) \<rparr>"

fun getDifficultyChange :: "ReviewResult \<Rightarrow> jsnum" where
  "getDifficultyChange AGAIN = Fin (12 / 10)"
| "getDifficultyChange HARD = Fin (3 / 10)"
| "getDifficultyChange GOOD = Fin (- (1 / 10))"
| "getDifficultyChange EASY = Fin (- (3 / 10))"

definition getStabilityIncrease :: "ReviewResult \<Rightarrow> jsnum \<Rightarrow> jsnum \<Rightarrow> jsnum" where
  "getStabilityIncrease result diff retr =
     (let base = js_sub (Fin 1) retr;
          difficultyFactor = Math_exp (js_mul DIFFICULTY_DECAY diff)
      in case result of
           HARD \<Rightarrow> js_mul (js_mul base (Fin (5 / 10))) difficultyFactor
         | GOOD \<Rightarrow> js_mul (js_mul base (Fin 1)) difficultyFactor
         | EASY \<Rightarrow> js_mul (js_mul base (Fin (15 / 10))) difficultyFactor
         | AGAIN \<Rightarrow> Fin 0)"

definition calculateInterval :: "jsnum \<Rightarrow> jsnum \<Rightarrow> ReviewResult \<Rightarrow> jsnum" where
  "calculateInterval stab diff result =
     (if result = AGAIN then Fin (25 / 100)
      else
        let baseInterval =
              js_div (js_mul stab (Math_log (Fin (9 / 10)))) (Math_log (Fin (9 / 10)));
            difficultyMultiplier = Math_exp (js_mul (Fin (- (1 / 10))) diff)
        in Math_max (Fin 1) (js_mul baseInterval difficultyMultiplier))"

text \<open>
  \<^verbatim>\<open>calculateNextReview\<close>. The new state is returned; the parameter is not
  changed. The only throw is \<^verbatim>\<open>toISOString\<close> on an invalid next-review date.
\<close>

definition calculateNextReview ::
  "instant \<Rightarrow> FSRSParams \<Rightarrow> ReviewResult \<Rightarrow> js_error + FSRSParams" where
  "calculateNextReview now params result =
     (let difficulty' =
            Math_max (Fin 0)
              (Math_min (Fin 10)
                 (js_add (ToNumber (difficulty params)) (getDifficultyChange result)));
          retrievability' =
            (case last_review params of
               Some t \<Rightarrow>
                 (let elapsed = js_div (Fin (of_int (now - t))) (Fin (of_int ms_per_day))
                  in Num (Math_pow_0_9 (js_div elapsed (ToNumber (stability params)))))
             | None \<Rightarrow> retrievability params);
          stability' =
            (if result = AGAIN
             then Math_max (Fin (1 / 10)) (js_mul (ToNumber (stability params)) (Fin (2 / 10)))
             else
               let stabilityIncrease =
                     getStabilityIncrease result difficulty' (ToNumber retrievability')
               in js_mul (ToNumber (stability params)) (js_add (Fin 1) stabilityIncrease));
          interval = calculateInterval stability' difficulty' result
      in case setDate_toISOString now (Math_round interval) of
           Inl e \<Rightarrow> Inl e
         | Inr nextReview \<Rightarrow>
             Inr \<lparr> difficulty = Num difficulty',
                   stability = Num stability',
                   retrievability = retrievability',
                   last_review = Some now,
                   next_review = nextReview,
                   review_count = Num (js_add (ToNumber (review_count params)) (Fin 1)) \<rparr>)"

section \<open>The database service\<close>

text \<open>
  \<^verbatim>\<open>SavedWord.fsrs_params\<close> is an optional string. The model keeps what
  \<^verbatim>\<open>JSON.parse\<close> makes of it: \<open>Malformed\<close> is a text on which
  \<^verbatim>\<open>JSON.parse\<close> throws, \<open>Json p\<close> a text that parses to the object \<open>p\<close>.
  \<open>None\<close> is a falsy field: \<^verbatim>\<open>undefined\<close> or the empty string. The date
  fields of a parsed object hold valid dates, as every text that the service writes
  does.
\<close>

datatype fsrs_text = Malformed | Json FSRSParams

fun JSON_parse :: "fsrs_text \<Rightarrow> js_error + FSRSParams" where
  "JSON_parse Malformed = Inl SyntaxError"
| "JSON_parse (Json p) = Inr p"

definition JSON_stringify :: "FSRSParams \<Rightarrow> fsrs_text" where
  "JSON_stringify p =
     Json (p\<lparr> difficulty := json_field (difficulty p),
              stability := json_field (stability p),
              retrievability := json_field (retrievability p),
              review_count := json_field (review_count p) \<rparr>)"

record SavedWord =
  id' :: int
  text' :: string
  phonetic :: string
  createdAt :: instant
  fsrs_params :: "fsrs_text option"

text \<open>
  The service's state: the array \<^verbatim>\<open>words\<close>, the id counter, the text stored
  under \<^verbatim>\<open>vocabulary_words\<close> in local storage, and the number of
  \<^verbatim>\<open>datachanged\<close> events dispatched so far. Meanings and examples play no part
  in scheduling and are left out.
\<close>

record database =
  words :: "SavedWord list"
  nextWordId :: int
  vocabulary_words :: "SavedWord list"
  datachanged :: nat

definition saveToLocalStorage :: "database \<Rightarrow> database" where
  "saveToLocalStorage db =
     db\<lparr> vocabulary_words := words db, datachanged := datachanged db + 1 \<rparr>"

text \<open>\<^verbatim>\<open>toLowerCase\<close>, on the ASCII letters.\<close>

definition toLowerCase :: "string \<Rightarrow> string" where
  "toLowerCase s =
     map (\<lambda>c. let n = (of_char c :: nat)
               in if 65 \<le> n \<and> n \<le> 90 then char_of (n + 32) else c) s"

text \<open>The object that \<^verbatim>\<open>saveWord\<close> stringifies: it has no \<^verbatim>\<open>review_count\<close>.\<close>

definition saveWord_params :: "instant \<Rightarrow> FSRSParams" where
  "saveWord_params now =
     \<lparr> difficulty = Num (Fin 0),
       stability = Num (Fin 0),
       retrievability = Num (Fin 1),
       last_review = None,
       next_review = now,
       review_count = Undefined \<rparr>"

definition saveWord :: "instant \<Rightarrow> database \<Rightarrow> string \<Rightarrow> string \<Rightarrow> int \<times> database" where
  "saveWord now db word ph =
     (case find (\<lambda>w. toLowerCase (text' w) = toLowerCase word) (words db) of
        Some existingWord \<Rightarrow> (id' existingWord, db)
      | None \<Rightarrow>
          (let newWord =
                 \<lparr> id' = nextWordId db,
                   text' = word,
                   phonetic = ph,
                   createdAt = now,
                   fsrs_params = Some (JSON_stringify (saveWord_params now)) \<rparr>;
               db1 = db\<lparr> nextWordId := nextWordId db + 1 \<rparr>;
               db2 = db1\<lparr> words := words db1 @ [newWord] \<rparr>
           in (id' newWord, saveToLocalStorage db2)))"

text \<open>
  \<^verbatim>\<open>word.fsrs_params = ...\<close> on the object that \<^verbatim>\<open>find\<close> returned: the
  first word of the array with that id changes, in place.
\<close>

fun assign_fsrs_params :: "int \<Rightarrow> fsrs_text \<Rightarrow> SavedWord list \<Rightarrow> SavedWord list" where
  "assign_fsrs_params wordId s [] = []"
| "assign_fsrs_params wordId s (w # ws) =
     (if id' w = wordId then w\<lparr> fsrs_params := Some s \<rparr> # ws
      else w # assign_fsrs_params wordId s ws)"

definition updateFSRSParams :: "database \<Rightarrow> int \<Rightarrow> FSRSParams \<Rightarrow> database" where
  "updateFSRSParams db wordId params =
     (case find (\<lambda>w. id' w = wordId) (words db) of
        None \<Rightarrow> db
      | Some word \<Rightarrow>
          saveToLocalStorage
            (db\<lparr> words := assign_fsrs_params wordId (JSON_stringify params) (words db) \<rparr>))"

datatype console =
    console_error_not_found int
  | console_log_cooldown int
  | console_error_recording int js_error

text \<open>
  \<^verbatim>\<open>recordReview\<close> returns a promise of no value: \<open>Inr ()\<close> is the promise
  fulfilled, \<open>Inl e\<close> the promise rejected with \<open>e\<close>. The lines written to the
  console and the state after the call are returned beside it. The two readings of
  the clock during one call, in \<^verbatim>\<open>recordReview\<close> and in
  \<^verbatim>\<open>calculateNextReview\<close>, are the same instant \<open>now\<close>.
\<close>

definition Failed_to_update :: js_error where
  "Failed_to_update = Error ''Failed to update FSRS parameters.''"

text \<open>
  The cooldown test inside \<^verbatim>\<open>recordReview\<close>: a last review is present and
  fewer than 50 minutes lie between it and \<open>now\<close>.
\<close>

definition in_cooldown :: "instant \<Rightarrow> FSRSParams \<Rightarrow> bool" where
  "in_cooldown now currentParams =
     (case last_review currentParams of
        None \<Rightarrow> False
      | Some lastReviewDate \<Rightarrow>
          (let minutesSinceLastReview = real_of_int (now - lastReviewDate) / (1000 * 60)
           in minutesSinceLastReview < 50))"

definition recordReview ::
  "instant \<Rightarrow> database \<Rightarrow> int \<Rightarrow> ReviewResult \<Rightarrow> (js_error + unit) \<times> console list \<times> database" where
  "recordReview now db wordId result =
     (case find (\<lambda>w. id' w = wordId) (words db) of
        None \<Rightarrow> (Inr (), [console_error_not_found wordId], db)
      | Some word \<Rightarrow>
          (case (case fsrs_params word of
                   Some s \<Rightarrow> JSON_parse s
                 | None \<Rightarrow> Inr (initializeParams now)) of
             Inl e \<Rightarrow> (Inl Failed_to_update, [console_error_recording wordId e], db)
           | Inr currentParams \<Rightarrow>
               if in_cooldown now currentParams
               then (Inr (), [console_log_cooldown wordId], db)
               else
                 (case calculateNextReview now currentParams result of
                    Inl e \<Rightarrow> (Inl Failed_to_update, [console_error_recording wordId e], db)
                  | Inr newParams \<Rightarrow> (Inr (), [], updateFSRSParams db wordId newParams))))"

subsection \<open>Practice selection\<close>

datatype bucket = due | learning | fresh | mastered

definition bucket_of :: "instant \<Rightarrow> SavedWord \<Rightarrow> bucket" where
  "bucket_of now word =
     (case fsrs_params word of
        None \<Rightarrow> fresh
      | Some s \<Rightarrow>
          (case JSON_parse s of
             Inl e \<Rightarrow> mastered
           | Inr params \<Rightarrow>
               if stability params = Num (Fin 0) then fresh
               else if next_review params \<le> now then due
               else if js_less (Fin 0) (ToNumber (stability params))
                       \<and> js_le (ToNumber (stability params)) (Fin 30) then learning
               else mastered))"

definition weightedPool :: "instant \<Rightarrow> SavedWord list \<Rightarrow> SavedWord list" where
  "weightedPool now ws =
     concat (map (replicate 4) (filter (\<lambda>w. bucket_of now w = due) ws)) @
     concat (map (replicate 3) (filter (\<lambda>w. bucket_of now w = learning) ws)) @
     concat (map (replicate 2) (filter (\<lambda>w. bucket_of now w = fresh) ws)) @
     concat (map (replicate 1) (filter (\<lambda>w. bucket_of now w = mastered) ws))"

text \<open>
  The loop over the shuffled pool, with \<^verbatim>\<open>finalSelection\<close> and
  \<^verbatim>\<open>selectedIds\<close> as they stand; the limit is tested after a word is pushed.
\<close>

fun pick_unique :: "int \<Rightarrow> SavedWord list \<Rightarrow> SavedWord list \<Rightarrow> int set \<Rightarrow> SavedWord list" where
  "pick_unique limit [] finalSelection selectedIds = finalSelection"
| "pick_unique limit (word # pool) finalSelection selectedIds =
     (if id' word \<notin> selectedIds
      then (let finalSelection' = finalSelection @ [word];
                selectedIds' = insert (id' word) selectedIds
            in if int (length finalSelection') \<ge> limit then finalSelection'
               else pick_unique limit pool finalSelection' selectedIds')
      else pick_unique limit pool finalSelection selectedIds)"

text \<open>
  \<^verbatim>\<open>sort(() => Math.random() - 0.5)\<close> reorders the pool in a way the program does
  not control; the reordering is the parameter \<open>shuffle\<close>.
\<close>

definition getWordsForPractice ::
  "(SavedWord list \<Rightarrow> SavedWord list) \<Rightarrow> instant \<Rightarrow> database \<Rightarrow> int \<Rightarrow> SavedWord list" where
  "getWordsForPractice shuffle now db limit =
     (if length (words db) = 0 then []
      else (let shuffledPool = shuffle (weightedPool now (words db))
            in pick_unique limit shuffledPool [] {}))"

subsection \<open>Streak\<close>

definition reviewDates :: "database \<Rightarrow> instant list" where
  "reviewDates db =
     List.map_filter
       (\<lambda>word. case fsrs_params word of
                  None \<Rightarrow> None
                | Some s \<Rightarrow> (case JSON_parse s of Inl e \<Rightarrow> None | Inr params \<Rightarrow> last_review params))
       (words db)"

text \<open>A \<^verbatim>\<open>Set\<close> of day strings, in insertion order.\<close>

fun uniqueDayStrings :: "instant list \<Rightarrow> int list \<Rightarrow> int list" where
  "uniqueDayStrings [] seen = seen"
| "uniqueDayStrings (date # dates) seen =
     uniqueDayStrings dates
       (if toDateString date \<in> set seen then seen else seen @ [toDateString date])"

fun streak_loop :: "instant \<Rightarrow> instant list \<Rightarrow> nat \<Rightarrow> nat" where
  "streak_loop currentDay [] streak = streak"
| "streak_loop currentDay (previousDay # rest) streak =
     (let expectedPreviousDay = currentDay - 1 * ms_per_day
      in if toDateString previousDay = toDateString expectedPreviousDay
         then streak_loop previousDay rest (streak + 1)
         else streak)"

definition calculateStreakDays :: "instant \<Rightarrow> database \<Rightarrow> js_error + nat" where
  "calculateStreakDays now db =
     (if length (reviewDates db) = 0 then Inr 0
      else
        (let uniqueDates = map Date_of_day (uniqueDayStrings (reviewDates db) []);
             sorted = sort_key (\<lambda>t. - t) uniqueDates;
             today = now;
             yesterday = now - 1 * ms_per_day
         in case sorted of
              [] \<Rightarrow> Inl TypeError
            | mostRecentReviewDate # rest \<Rightarrow>
                if toDateString mostRecentReviewDate \<noteq> toDateString today
                   \<and> toDateString mostRecentReviewDate \<noteq> toDateString yesterday
                then Inr 0
                else Inr (streak_loop mostRecentReviewDate rest 1)))"

subsection \<open>Deleting a word\<close>

definition deleteWord :: "database \<Rightarrow> int \<Rightarrow> database" where
  "deleteWord db wordId =
     saveToLocalStorage (db\<lparr> words := filter (\<lambda>w. id' w \<noteq> wordId) (words db) \<rparr>)"

section \<open>Reachable states and observers\<close>

text \<open>The service as the constructor leaves it when local storage holds nothing.\<close>

definition initial_database :: database where
  "initial_database = \<lparr> words = [], nextWordId = 1, vocabulary_words = [], datachanged = 0 \<rparr>"

text \<open>
  The states of the service that its operations reach from the initial one, at any
  instants and with any arguments.
\<close>

inductive reachable :: "database \<Rightarrow> bool" where
  reachable_initial: "reachable initial_database"
| reachable_saveWord: "reachable db \<Longrightarrow> reachable (snd (saveWord now db word ph))"
| reachable_recordReview:
    "reachable db \<Longrightarrow> reachable (snd (snd (recordReview now db wordId result)))"
| reachable_deleteWord: "reachable db \<Longrightarrow> reachable (deleteWord db wordId)"

text \<open>The memory state that the stored text of a word parses to, if there is one.\<close>

definition getMemoryState :: "database \<Rightarrow> int \<Rightarrow> FSRSParams option" where
  "getMemoryState db wordId =
     (case find (\<lambda>w. id' w = wordId) (words db) of
        None \<Rightarrow> None
      | Some word \<Rightarrow>
          (case fsrs_params word of
             None \<Rightarrow> None
           | Some s \<Rightarrow> (case JSON_parse s of Inl e \<Rightarrow> None | Inr p \<Rightarrow> Some p)))"


text \<open>
  The set of calendar days on which some word was last reviewed, read off the stored
  states: the days of the \<^verbatim>\<open>last_review\<close> fields of the words whose stored text
  parses. A word with no stored text, with a malformed one or with a
  \<^verbatim>\<open>last_review\<close> of \<^verbatim>\<open>null\<close> contributes no day.
\<close>

definition review_days :: "database \<Rightarrow> int set" where
  "review_days db =
     {d. \<exists>word \<in> set (words db). \<exists>p t.
           fsrs_params word = Some (Json p) \<and> last_review p = Some t \<and> toDateString t = d}"

section \<open>Example states\<close>

definition minutes :: "int \<Rightarrow> int" where
  "minutes n = n * (1000 * 60)"

definition example_word :: "int \<Rightarrow> fsrs_text option \<Rightarrow> SavedWord" where
  "example_word i s =
     \<lparr> id' = i, text' = ''cat'', phonetic = '''', createdAt = 0, fsrs_params = s \<rparr>"

text \<open>A service holding one word, with id 1, whose stored state is \<open>s\<close>.\<close>

definition example_database :: "fsrs_text option \<Rightarrow> database" where
  "example_database s =
     \<lparr> words = [example_word 1 s], nextWordId = 2,
       vocabulary_words = [example_word 1 s], datachanged = 1 \<rparr>"

text \<open>A state last reviewed at instant 0.\<close>

definition reviewed_at_0 :: FSRSParams where
  "reviewed_at_0 = (initializeParams 0)\<lparr> last_review := Some 0 \<rparr>"

text \<open>A word registered at instant 0 by \<^verbatim>\<open>saveWord\<close>, on first launch.\<close>

definition registered :: database where
  "registered = snd (saveWord 0 initial_database ''cat'' '''')"

text \<open>The same word after a review graded Good one day later, and one more a day after that.\<close>

definition reviewed_once :: database where
  "reviewed_once = snd (snd (recordReview ms_per_day registered 1 GOOD))"

definition reviewed_twice :: database where
  "reviewed_twice = snd (snd (recordReview (2 * ms_per_day) reviewed_once 1 GOOD))"

text \<open>
  A service holding three words that were never reviewed (one as \<^verbatim>\<open>saveWord\<close>
  registers it, one with a malformed stored text, one with no stored text) and then
  one word per instant of \<open>ts\<close>, last reviewed at that instant.
\<close>

definition example_reviews :: "instant list \<Rightarrow> database" where
  "example_reviews ts =
     \<lparr> words =
         [example_word 1 (Some (Json (saveWord_params 0))),
          example_word 2 (Some Malformed),
          example_word 3 None] @
         map (\<lambda>(i, t). example_word (int i)
                        (Some (Json ((initializeParams 0)\<lparr> last_review := Some t \<rparr>))))
             (enumerate 4 ts),
       nextWordId = int (length ts) + 4,
       vocabulary_words = [],
       datachanged = 0 \<rparr>"

section \<open>Invariants\<close>


text \<open>The stored state of a word parses and its three numbers are finite.\<close>

definition numeric_ok :: "SavedWord \<Rightarrow> bool" where
  "numeric_ok word =
     (\<exists>p D S R. fsrs_params word = Some (Json p) \<and> difficulty p = Num (Fin D)
               \<and> stability p = Num (Fin S) \<and> retrievability p = Num (Fin R))"

section \<open>Evaluation\<close>

lemmas fsrs_defs =
  calculateNextReview_def Let_def getStabilityIncrease_def calculateInterval_def
  DIFFICULTY_DECAY_def INITIAL_STABILITY_def js_sub_def ms_per_day_def initializeParams_def

lemmas db_defs =
  saveWord_def saveToLocalStorage_def JSON_stringify_def saveWord_params_def recordReview_def
  in_cooldown_def updateFSRSParams_def toLowerCase_def Failed_to_update_def
  initial_database_def getMemoryState_def Let_def

lemma registered_eq:
  "registered =
     \<lparr> words = [\<lparr> id' = 1, text' = ''cat'', phonetic = '''', createdAt = 0,
                   fsrs_params = Some (Json (saveWord_params 0)) \<rparr>],
       nextWordId = 2,
       vocabulary_words = [\<lparr> id' = 1, text' = ''cat'', phonetic = '''', createdAt = 0,
                   fsrs_params = Some (Json (saveWord_params 0)) \<rparr>],
       datachanged = 1 \<rparr>"
  by (simp add: registered_def db_defs)

lemma reviewed_once_state:
  "getMemoryState reviewed_once 1 =
     Some \<lparr> difficulty = Num (Fin 0), stability = Num (Fin 0), retrievability = Num (Fin 1),
            last_review = Some ms_per_day, next_review = 2 * ms_per_day,
            review_count = Null \<rparr>"
  by (simp add: reviewed_once_def registered_eq) (simp add: fsrs_defs db_defs)

lemma reviewed_once_eq:
  "reviewed_once =
     \<lparr> words = [\<lparr> id' = 1, text' = ''cat'', phonetic = '''', createdAt = 0,
                   fsrs_params = Some (Json
                     \<lparr> difficulty = Num (Fin 0), stability = Num (Fin 0),
                       retrievability = Num (Fin 1), last_review = Some ms_per_day,
                       next_review = 2 * ms_per_day, review_count = Null \<rparr>) \<rparr>],
       nextWordId = 2,
       vocabulary_words = [\<lparr> id' = 1, text' = ''cat'', phonetic = '''', createdAt = 0,
                   fsrs_params = Some (Json
                     \<lparr> difficulty = Num (Fin 0), stability = Num (Fin 0),
                       retrievability = Num (Fin 1), last_review = Some ms_per_day,
                       next_review = 2 * ms_per_day, review_count = Null \<rparr>) \<rparr>],
       datachanged = 2 \<rparr>"
  by (simp add: reviewed_once_def registered_eq) (simp add: fsrs_defs db_defs)

lemma reviewed_twice_state:
  "getMemoryState reviewed_twice 1 =
     Some \<lparr> difficulty = Num (Fin 0), stability = Num (Fin 0), retrievability = Num (Fin 0),
            last_review = Some (2 * ms_per_day), next_review = 3 * ms_per_day,
            review_count = Num (Fin 1) \<rparr>"
  by (simp add: reviewed_twice_def reviewed_once_eq) (simp add: fsrs_defs db_defs)

lemma registered_state:
  "getMemoryState registered 1 = Some (saveWord_params 0)"
  by (simp add: registered_eq getMemoryState_def)

section \<open>Recording a review\<close>

text \<open>
  C1. When the stored state of the word parses and has a last review less than 50
  minutes before \<open>now\<close>, \<^verbatim>\<open>recordReview\<close> logs the cooldown line and returns with
  the whole service state unchanged: every field of every word, the text in local
  storage and the count of change events are the same, so nothing was written.
\<close>

theorem recordReview_cooldown:
  assumes "find (\<lambda>w. id' w = wordId) (words db) = Some word"
      and "fsrs_params word = Some (Json p)"
      and "last_review p = Some t"
      and "now - t < minutes 50"
  shows "recordReview now db wordId result = (Inr (), [console_log_cooldown wordId], db)"
proof -
  have "real_of_int (now - t) < 50 * (1000 * 60)"
    using assms(4) unfolding minutes_def by linarith
  then have "in_cooldown now p"
    using assms(3) by (simp add: in_cooldown_def)
  then show ?thesis
    using assms(1,2) by (simp add: recordReview_def)
qed

text \<open>The word was reviewed at instant 0 and is reviewed again ten minutes later.\<close>

theorem recordReview_cooldown_witness:
  "recordReview (minutes 10) (example_database (Some (Json reviewed_at_0))) 1 GOOD
     = (Inr (), [console_log_cooldown 1], example_database (Some (Json reviewed_at_0)))"
  using recordReview_cooldown [of 1 "example_database (Some (Json reviewed_at_0))"
      "example_word 1 (Some (Json reviewed_at_0))" reviewed_at_0 0 "minutes 10" GOOD]
  by (simp add: example_database_def example_word_def reviewed_at_0_def minutes_def)

text \<open>
  C3, as the code has it. When the stored text of the word fails to parse,
  \<^verbatim>\<open>recordReview\<close> logs the error, rejects with
  \<^verbatim>\<open>Error("Failed to update FSRS parameters.")\<close> and leaves the service state
  unchanged. The initial state of \<^verbatim>\<open>initializeParams\<close> is the base of the update
  only when the word has no stored text at all; that review is accepted.
\<close>

theorem recordReview_malformed:
  assumes "find (\<lambda>w. id' w = wordId) (words db) = Some word"
  shows "(fsrs_params word = Some Malformed \<longrightarrow>
            recordReview now db wordId result
              = (Inl Failed_to_update, [console_error_recording wordId SyntaxError], db))
       \<and> (fsrs_params word = None \<longrightarrow>
            (\<exists>newParams. calculateNextReview now (initializeParams now) result = Inr newParams
               \<and> recordReview now db wordId result
                   = (Inr (), [], updateFSRSParams db wordId newParams)))"
proof -
  have "\<exists>newParams. calculateNextReview now (initializeParams now) result = Inr newParams"
    by (cases result) (simp_all add: fsrs_defs)
  then show ?thesis
    using assms by (auto simp add: recordReview_def in_cooldown_def initializeParams_def)
qed

theorem recordReview_malformed_witness:
  "recordReview 0 (example_database (Some Malformed)) 1 GOOD
     = (Inl Failed_to_update, [console_error_recording 1 SyntaxError],
        example_database (Some Malformed))
   \<and> (\<exists>newParams. calculateNextReview 0 (initializeParams 0) GOOD = Inr newParams
          \<and> recordReview 0 (example_database None) 1 GOOD
              = (Inr (), [], updateFSRSParams (example_database None) 1 newParams))"
  using recordReview_malformed [of 1 "example_database (Some Malformed)"
          "example_word 1 (Some Malformed)" 0 GOOD]
        recordReview_malformed [of 1 "example_database None" "example_word 1 None" 0 GOOD]
  by (simp add: example_database_def example_word_def)

text \<open>
  C3 as stated fails: on a word whose stored text is malformed the call is rejected
  and nothing is updated, whereas the same call on a word with no stored text changes
  the state.
\<close>

theorem recordReview_malformed_counterexample:
  "fst (recordReview 0 (example_database (Some Malformed)) 1 GOOD) = Inl Failed_to_update
   \<and> snd (snd (recordReview 0 (example_database (Some Malformed)) 1 GOOD))
       = example_database (Some Malformed)
   \<and> snd (snd (recordReview 0 (example_database (Some Malformed)) 1 GOOD))
       \<noteq> snd (snd (recordReview 0 (example_database None) 1 GOOD))"
  by (simp add: fsrs_defs db_defs example_database_def example_word_def)

text \<open>
  C9, as the code has it. For an id that no word of the array has,
  \<^verbatim>\<open>recordReview\<close> logs the not-found line, leaves the service state unchanged and
  fulfils its promise with no value. Every call either fulfils the promise with no
  value or rejects it with \<^verbatim>\<open>Error("Failed to update FSRS parameters.")\<close>.
\<close>

theorem recordReview_not_found:
  "(find (\<lambda>w. id' w = wordId) (words db) = None \<longrightarrow>
      recordReview now db wordId result = (Inr (), [console_error_not_found wordId], db))
   \<and> (fst (recordReview now db wordId result) = Inr ()
        \<or> fst (recordReview now db wordId result) = Inl Failed_to_update)"
  by (simp add: recordReview_def split: option.splits sum.splits)

theorem recordReview_not_found_witness:
  "find (\<lambda>w. id' w = 7) (words (example_database None)) = None
   \<and> recordReview 0 (example_database None) 7 GOOD
       = (Inr (), [console_error_not_found 7], example_database None)"
  using recordReview_not_found [of 7 "example_database None" 0 GOOD]
  by (simp add: example_database_def example_word_def)

text \<open>
  C9 as stated fails: the value returned for the missing id 7 is the value returned
  for an accepted review of word 1 and for a review of word 1 skipped by the cooldown,
  and a malformed stored text is raised to the caller as a rejected promise.
\<close>

theorem recordReview_not_found_counterexample:
  "fst (recordReview 0 (example_database None) 7 GOOD)
     = fst (recordReview 0 (example_database None) 1 GOOD)
   \<and> fst (recordReview 0 (example_database None) 7 GOOD)
     = fst (recordReview (minutes 10) (example_database (Some (Json reviewed_at_0))) 1 GOOD)
   \<and> fst (recordReview 0 (example_database (Some Malformed)) 1 GOOD) = Inl Failed_to_update"
  by (simp add: fsrs_defs db_defs example_database_def example_word_def reviewed_at_0_def
      minutes_def)

section \<open>The update rule\<close>

text \<open>
  C2, at the failing input. A word registered by \<^verbatim>\<open>saveWord\<close> starts with
  stability 0; after an accepted review graded Good its stored stability is still 0,
  the next review divides the elapsed time by that 0 (the retrievability becomes 0),
  and the stability stays 0.
\<close>

theorem stability_stays_zero:
  "map_option stability (getMemoryState registered 1) = Some (Num (Fin 0))
   \<and> map_option last_review (getMemoryState reviewed_once 1) = Some (Some ms_per_day)
   \<and> map_option stability (getMemoryState reviewed_once 1) = Some (Num (Fin 0))
   \<and> map_option retrievability (getMemoryState reviewed_twice 1) = Some (Num (Fin 0))
   \<and> map_option stability (getMemoryState reviewed_twice 1) = Some (Num (Fin 0))"
  by (simp add: registered_state reviewed_once_state reviewed_twice_state saveWord_params_def)

text \<open>
  C4, at every input. A review graded Again returns a state whose stability is
  \<^verbatim>\<open>Math.max(0.1, stability * 0.2)\<close>, and whose next review is \<open>now\<close> itself: the
  interval 0.25 is rounded to 0 days, so the next review is not a quarter of a day
  after \<open>now\<close>.
\<close>

theorem again_next_review_is_now:
  "\<exists>p'. calculateNextReview now p AGAIN = Inr p'
     \<and> stability p' =
         Num (Math_max (Fin (1 / 10)) (js_mul (ToNumber (stability p)) (Fin (2 / 10))))
     \<and> next_review p' = now
     \<and> next_review p' \<noteq> now + ms_per_day div 4"
  by (simp add: calculateNextReview_def Let_def calculateInterval_def ms_per_day_def)

text \<open>
  C6, at the failing input. The state that \<^verbatim>\<open>saveWord\<close> stores has no
  \<^verbatim>\<open>review_count\<close>; the first accepted review computes
  \<^verbatim>\<open>undefined + 1\<close>, which is \<^verbatim>\<open>NaN\<close> and is stored as \<^verbatim>\<open>null\<close>; the
  second accepted review stores 1.
\<close>

theorem review_count_after_registration:
  "map_option review_count (getMemoryState registered 1) = Some Undefined
   \<and> map_option review_count (getMemoryState reviewed_once 1) = Some Null
   \<and> map_option review_count (getMemoryState reviewed_twice 1) = Some (Num (Fin 1))"
  by (simp add: registered_state reviewed_once_state reviewed_twice_state saveWord_params_def)

text \<open>
  C10. For a state with no last review, retrievability 1 and finite stability and
  difficulty, a review graded Hard, Good or Easy returns a state with the same
  stability: the stability increase computed from retrievability 1 is 0.
\<close>

theorem first_review_keeps_stability:
  assumes "last_review p = None"
      and "retrievability p = Num (Fin 1)"
      and "stability p = Num (Fin S)"
      and "difficulty p = Num (Fin D)"
      and "result \<noteq> AGAIN"
  shows "\<exists>p'. calculateNextReview now p result = Inr p'
           \<and> getStabilityIncrease result (ToNumber (difficulty p')) (Fin 1) = Fin 0
           \<and> stability p' = stability p"
  using assms
  by (cases result) (simp_all add: calculateNextReview_def Let_def calculateInterval_def
      getStabilityIncrease_def js_sub_def DIFFICULTY_DECAY_def)

theorem first_review_keeps_stability_witness:
  "\<exists>p'. calculateNextReview 0 (initializeParams 0) GOOD = Inr p'
      \<and> getStabilityIncrease GOOD (ToNumber (difficulty p')) (Fin 1) = Fin 0
      \<and> stability p' = Num (Fin (4 / 10))"
  using first_review_keeps_stability [of "initializeParams 0" "4 / 10" 0 GOOD 0]
  by (simp add: initializeParams_def INITIAL_STABILITY_def)

section \<open>The difficulty bound\<close>




lemma assign_fsrs_params_all:
  assumes "\<forall>w \<in> set ws. P w" and "\<And>w. P w \<Longrightarrow> P (w\<lparr> fsrs_params := Some s \<rparr>)"
  shows "\<forall>w \<in> set (assign_fsrs_params wordId s ws). P w"
  using assms by (induction ws) auto

lemma find_Some_set: "find P xs = Some x \<Longrightarrow> x \<in> set xs"
  by (induction xs) (auto split: if_splits)





section \<open>What the update rule keeps\<close>

text \<open>A numeric review count goes up by one in every state that a review returns.\<close>

lemma review_count_increment:
  assumes "review_count p = Num (Fin n)" and "calculateNextReview now p result = Inr p'"
  shows "review_count p' = Num (Fin (n + 1))"
  using assms by (auto simp add: calculateNextReview_def Let_def split: sum.splits)

lemma Math_max_Fin: "Math_max (Fin a) (Fin b) = Fin (max a b)"
  by (simp add: max_def)

lemma Math_min_Fin: "Math_min (Fin a) (Fin b) = Fin (min a b)"
  by (simp add: min_def)

lemma calculateNextReview_numeric:
  assumes "difficulty p = Num (Fin D)" and "stability p = Num (Fin S)"
      and "retrievability p = Num (Fin R)" and "\<not> in_cooldown now p"
  shows "\<exists>p' D' S' R'. calculateNextReview now p result = Inr p'
            \<and> difficulty p' = Num (Fin D') \<and> stability p' = Num (Fin S')
            \<and> retrievability p' = Num (Fin R')"
proof -
  have R': "\<exists>R'. (case last_review p of
               Some t \<Rightarrow>
                 (let elapsed = js_div (Fin (of_int (now - t))) (Fin (of_int ms_per_day))
                  in Num (Math_pow_0_9 (js_div elapsed (ToNumber (stability p)))))
             | None \<Rightarrow> retrievability p) = Num (Fin R')"
  proof (cases "last_review p")
    case None
    then show ?thesis using assms(3) by simp
  next
    case (Some t)
    then have "\<not> real_of_int (now - t) / (1000 * 60) < 50"
      using assms(4) by (simp add: in_cooldown_def)
    then have pos: "0 < real_of_int (now - t)" by (simp add: field_simps)
    then have "0 < real_of_int (now - t) / real_of_int ms_per_day"
      by (simp add: ms_per_day_def)
    moreover have "of_int ms_per_day \<noteq> (0::real)" by (simp add: ms_per_day_def)
    moreover have "now \<noteq> t" using pos by auto
    ultimately show ?thesis
      using Some assms(2) by (cases "S = 0") (simp_all add: Let_def)
  qed
  then obtain R' where R': "(case last_review p of
               Some t \<Rightarrow>
                 (let elapsed = js_div (Fin (of_int (now - t))) (Fin (of_int ms_per_day))
                  in Num (Math_pow_0_9 (js_div elapsed (ToNumber (stability p)))))
             | None \<Rightarrow> retrievability p) = Num (Fin R')" by blast
  show ?thesis
    using assms(1,2) R'
    by (cases result)
       (simp_all add: calculateNextReview_def calculateInterval_def getStabilityIncrease_def
          js_sub_def DIFFICULTY_DECAY_def Let_def Math_max_Fin Math_min_Fin
          del: of_int_diff Math_max.simps Math_min.simps)
qed

text \<open>
  Finite numbers stay finite, so in every state the service reaches a review is never
  rejected.
\<close>

lemma recordReview_numeric:
  assumes "\<forall>w \<in> set (words db). numeric_ok w"
  shows "fst (recordReview now db wordId result) = Inr ()
       \<and> (\<forall>w \<in> set (words (snd (snd (recordReview now db wordId result)))). numeric_ok w)"
proof (cases "find (\<lambda>w. id' w = wordId) (words db)")
  case None
  then show ?thesis using assms by (simp add: recordReview_def)
next
  case (Some word)
  then have "numeric_ok word"
    using assms find_Some_set by fastforce
  then obtain p D S R where p: "fsrs_params word = Some (Json p)" "difficulty p = Num (Fin D)"
      "stability p = Num (Fin S)" "retrievability p = Num (Fin R)"
    by (auto simp add: numeric_ok_def)
  show ?thesis
  proof (cases "in_cooldown now p")
    case True
    then show ?thesis using Some p assms by (simp add: recordReview_def)
  next
    case False
    obtain p' D' S' R' where p': "calculateNextReview now p result = Inr p'"
        "difficulty p' = Num (Fin D')" "stability p' = Num (Fin S')"
        "retrievability p' = Num (Fin R')"
      using calculateNextReview_numeric [OF p(2,3,4) False] by blast
    have ok: "\<And>w. numeric_ok (w\<lparr> fsrs_params := Some (JSON_stringify p') \<rparr>)"
      using p'(2,3,4) by (simp add: numeric_ok_def JSON_stringify_def)
    have "\<forall>w \<in> set (assign_fsrs_params wordId (JSON_stringify p') (words db)). numeric_ok w"
      by (rule assign_fsrs_params_all) (use assms ok in auto)
    then show ?thesis
      using Some p False p'(1)
      by (simp add: recordReview_def updateFSRSParams_def saveToLocalStorage_def)
  qed
qed

lemma reachable_numeric:
  assumes "reachable db"
  shows "\<forall>w \<in> set (words db). numeric_ok w"
  using assms
proof (induction rule: reachable.induct)
  case reachable_initial
  then show ?case by (simp add: initial_database_def)
next
  case (reachable_saveWord db now word ph)
  then show ?case
    by (auto simp add: saveWord_def Let_def saveToLocalStorage_def numeric_ok_def
        JSON_stringify_def saveWord_params_def split: option.splits)
next
  case (reachable_recordReview db now wordId result)
  then show ?case using recordReview_numeric by blast
next
  case (reachable_deleteWord db wordId)
  then show ?case by (simp add: deleteWord_def saveToLocalStorage_def)
qed

text \<open>In every reachable state, recording a review never fails.\<close>

lemma reachable_recordReview_fulfilled:
  "reachable db \<Longrightarrow> fst (recordReview now db wordId result) = Inr ()"
  using reachable_numeric recordReview_numeric by blast

text \<open>
  A stability of at least 0.1 stays at least 0.1 through a review outside the
  cooldown, when the retrievability is at most 1.
\<close>

lemma stability_floor_kept:
  assumes "stability p = Num (Fin S)" and "1 / 10 \<le> S"
      and "difficulty p = Num (Fin D)"
      and "retrievability p = Num (Fin R)" and "R \<le> 1"
      and "\<not> in_cooldown now p"
  shows "\<exists>p' S'. calculateNextReview now p result = Inr p' \<and> stability p' = Num (Fin S')
            \<and> 1 / 10 \<le> S'"
proof -
  have S0: "S \<noteq> 0" "0 < S" using assms(2) by auto
  have R': "\<exists>R'. (case last_review p of
               Some t \<Rightarrow>
                 (let elapsed = js_div (Fin (of_int (now - t))) (Fin (of_int ms_per_day))
                  in Num (Math_pow_0_9 (js_div elapsed (ToNumber (stability p)))))
             | None \<Rightarrow> retrievability p) = Num (Fin R') \<and> R' \<le> 1"
  proof (cases "last_review p")
    case None
    then show ?thesis using assms(4,5) by simp
  next
    case (Some t)
    then have "\<not> real_of_int (now - t) / (1000 * 60) < 50"
      using assms(6) by (simp add: in_cooldown_def)
    then have pos: "0 < real_of_int (now - t)" by (simp add: field_simps)
    then have e: "0 \<le> real_of_int (now - t) / real_of_int ms_per_day / S"
      using S0 by (simp add: ms_per_day_def)
    have "(9 / 10) powr (real_of_int (now - t) / real_of_int ms_per_day / S) \<le> (1::real)"
      using e by (intro powr_le1) simp_all
    moreover have "of_int ms_per_day \<noteq> (0::real)" by (simp add: ms_per_day_def)
    ultimately show ?thesis
      using Some assms(1) S0 by (simp add: Let_def del: of_int_diff)
  qed
  then obtain R' where R': "(case last_review p of
               Some t \<Rightarrow>
                 (let elapsed = js_div (Fin (of_int (now - t))) (Fin (of_int ms_per_day))
                  in Num (Math_pow_0_9 (js_div elapsed (ToNumber (stability p)))))
             | None \<Rightarrow> retrievability p) = Num (Fin R')" and le: "R' \<le> 1" by blast
  have grow: "S \<le> S * (1 + (1 - R') * c * exp x)" if "0 \<le> c" for c x
  proof -
    have "0 \<le> (1 - R') * c * exp x" using le that by simp
    then have "S * 1 \<le> S * (1 + (1 - R') * c * exp x)"
      using S0 by (intro mult_left_mono) simp_all
    then show ?thesis by simp
  qed
  show ?thesis
  proof (cases result)
    case AGAIN
    then show ?thesis
      using assms(1,3) R'
      by (simp add: calculateNextReview_def calculateInterval_def Let_def Math_max_Fin Math_min_Fin
          del: of_int_diff Math_max.simps Math_min.simps)
  next
    case HARD
    have "1 / 10 \<le> S * (1 + (1 - R') * (5 / 10) * exp (- (5 / 10) * max 0 (min 10 (D + 3 / 10))))"
      using grow [of "5 / 10"] assms(2) by (meson order_trans zero_le_divide_iff zero_le_numeral)
    then show ?thesis
      using assms(1,3) R' HARD
      by (simp add: calculateNextReview_def calculateInterval_def getStabilityIncrease_def
          js_sub_def DIFFICULTY_DECAY_def Let_def Math_max_Fin Math_min_Fin
          del: of_int_diff Math_max.simps Math_min.simps)
  next
    case GOOD
    have "1 / 10 \<le> S * (1 + (1 - R') * 1 * exp (- (5 / 10) * max 0 (min 10 (D + - (1 / 10)))))"
      using grow [of 1] assms(2) by (meson order_trans zero_le_one)
    then show ?thesis
      using assms(1,3) R' GOOD
      by (simp add: calculateNextReview_def calculateInterval_def getStabilityIncrease_def
          js_sub_def DIFFICULTY_DECAY_def Let_def Math_max_Fin Math_min_Fin
          del: of_int_diff Math_max.simps Math_min.simps)
  next
    case EASY
    have "1 / 10 \<le> S * (1 + (1 - R') * (15 / 10) * exp (- (5 / 10) * max 0 (min 10 (D + - (3 / 10)))))"
      using grow [of "15 / 10"] assms(2) by (meson order_trans zero_le_divide_iff zero_le_numeral)
    then show ?thesis
      using assms(1,3) R' EASY
      by (simp add: calculateNextReview_def calculateInterval_def getStabilityIncrease_def
          js_sub_def DIFFICULTY_DECAY_def Let_def Math_max_Fin Math_min_Fin
          del: of_int_diff Math_max.simps Math_min.simps)
  qed
qed

section \<open>Practice selection\<close>

lemma set_weightedPool: "set (weightedPool now ws) = set ws"
proof -
  have "\<And>w. bucket_of now w = due \<or> bucket_of now w = learning
            \<or> bucket_of now w = fresh \<or> bucket_of now w = mastered"
    by (metis bucket.exhaust)
  then show ?thesis
    by (auto simp add: weightedPool_def)
qed

text \<open>The loop, from any point where the selection is still below the limit.\<close>

lemma pick_unique_props:
  assumes "selectedIds = id' ` set finalSelection"
      and "distinct (map id' finalSelection)"
      and "int (length finalSelection) < limit"
  shows "distinct (map id' (pick_unique limit pool finalSelection selectedIds))
       \<and> int (length (pick_unique limit pool finalSelection selectedIds)) \<le> limit
       \<and> set (pick_unique limit pool finalSelection selectedIds) \<subseteq> set finalSelection \<union> set pool
       \<and> (int (card (id' ` (set finalSelection \<union> set pool))) \<le> limit \<longrightarrow>
            id' ` set (pick_unique limit pool finalSelection selectedIds)
              = id' ` (set finalSelection \<union> set pool))"
  using assms
proof (induction pool arbitrary: finalSelection selectedIds)
  case Nil
  then show ?case by simp
next
  case (Cons word pool)
  show ?case
  proof (cases "id' word \<in> selectedIds")
    case True
    then have same: "id' ` (set finalSelection \<union> set (word # pool))
                   = id' ` (set finalSelection \<union> set pool)"
      using Cons.prems(1) by auto
    have "pick_unique limit (word # pool) finalSelection selectedIds
            = pick_unique limit pool finalSelection selectedIds"
      using True by simp
    then show ?thesis
      using Cons.IH [OF Cons.prems] same by auto
  next
    case False
    define final' where "final' = finalSelection @ [word]"
    have d': "distinct (map id' final')"
      using False Cons.prems(1,2) by (simp add: final'_def)
    have s': "insert (id' word) selectedIds = id' ` set final'"
      using Cons.prems(1) by (simp add: final'_def)
    have u': "set final' \<union> set pool = set finalSelection \<union> set (word # pool)"
      by (auto simp add: final'_def)
    show ?thesis
    proof (cases "int (length final') \<ge> limit")
      case True
      have res: "pick_unique limit (word # pool) finalSelection selectedIds = final'"
        using False True by (simp add: final'_def Let_def)
      have len: "int (length final') = limit"
        using True Cons.prems(3) by (simp add: final'_def)
      have card': "card (id' ` set final') = length final'"
        using d' by (metis distinct_card length_map set_map)
      have full: "id' ` set final' = id' ` (set finalSelection \<union> set (word # pool))"
        if "int (card (id' ` (set finalSelection \<union> set (word # pool)))) \<le> limit"
      proof (rule card_seteq)
        show "finite (id' ` (set finalSelection \<union> set (word # pool)))" by simp
        show "id' ` set final' \<subseteq> id' ` (set finalSelection \<union> set (word # pool))"
          by (auto simp add: final'_def)
        show "card (id' ` (set finalSelection \<union> set (word # pool))) \<le> card (id' ` set final')"
          using that len card' by simp
      qed
      show ?thesis
        unfolding res using d' len full by (auto simp add: final'_def)
    next
      case no: False
      have res: "pick_unique limit (word # pool) finalSelection selectedIds
                   = pick_unique limit pool final' (insert (id' word) selectedIds)"
        using False no by (simp add: final'_def Let_def)
      have "int (length final') < limit" using no by simp
      from Cons.IH [OF s' d' this] show ?thesis
        unfolding res u' by (auto simp add: final'_def)
    qed
  qed
qed

text \<open>
  With a limit of at least 1 and any reordering of the pool, the selection has no id
  twice, has at most \<open>limit\<close> words, all of them words of the service, and has every
  id of the service when the number of ids is at most the limit; with no words it is
  empty.
\<close>

lemma getWordsForPractice_positive_limit:
  assumes "\<And>pool. mset (shuffle pool) = mset pool"
      and "0 < limit"
  shows "distinct (map id' (getWordsForPractice shuffle now db limit))
       \<and> int (length (getWordsForPractice shuffle now db limit)) \<le> limit
       \<and> set (getWordsForPractice shuffle now db limit) \<subseteq> set (words db)
       \<and> (int (card (id' ` set (words db))) \<le> limit \<longrightarrow>
            id' ` set (getWordsForPractice shuffle now db limit) = id' ` set (words db))
       \<and> (words db = [] \<longrightarrow> getWordsForPractice shuffle now db limit = [])"
proof (cases "words db = []")
  case True
  then show ?thesis using assms(2) by (simp add: getWordsForPractice_def)
next
  case False
  have "set (shuffle (weightedPool now (words db))) = set (weightedPool now (words db))"
    using assms(1) by (metis set_mset_mset)
  then have pool: "set (shuffle (weightedPool now (words db))) = set (words db)"
    by (simp add: set_weightedPool)
  have "{} = id' ` set ([] :: SavedWord list)" "distinct (map id' [])" "int (length ([] :: SavedWord list)) < limit"
    using assms(2) by simp_all
  from pick_unique_props [OF this, of "shuffle (weightedPool now (words db))"]
  show ?thesis
    using False pool by (simp add: getWordsForPractice_def Let_def)
qed

text \<open>
  C7, at the failing input. With one registered word and the limit 0, the selection
  returns that word: the limit is tested only after a word has been pushed, so the
  result has one element, more than the limit.
\<close>

theorem getWordsForPractice_limit_zero:
  "getWordsForPractice (\<lambda>pool. pool) 0 registered 0 = words registered
   \<and> length (getWordsForPractice (\<lambda>pool. pool) 0 registered 0) = 1
   \<and> getWordsForPractice rev 0 registered 0 = words registered"
  by (simp add: registered_eq getWordsForPractice_def weightedPool_def bucket_of_def
      saveWord_params_def eval_nat_numeral)

section \<open>Streak\<close>

lemma toDateString_Date_of_day [simp]: "toDateString (Date_of_day d) = d"
  by (simp add: toDateString_def Date_of_day_def ms_per_day_def)

lemma toDateString_day_before:
  "toDateString (t - ms_per_day) = toDateString t - 1"
proof -
  have "ms_per_day \<noteq> 0"
    by (simp add: ms_per_day_def)
  then have "(t + (- 1) * ms_per_day) div ms_per_day = (- 1) + t div ms_per_day"
    by (rule div_mult_self1)
  then show ?thesis by (simp add: toDateString_def)
qed

lemma set_uniqueDayStrings:
  "set (uniqueDayStrings dates seen) = set seen \<union> toDateString ` set dates"
  by (induction dates arbitrary: seen) auto

lemma distinct_uniqueDayStrings:
  "distinct seen \<Longrightarrow> distinct (uniqueDayStrings dates seen)"
  by (induction dates arbitrary: seen) auto

lemma streak_loop_run:
  assumes "sorted_wrt (>) (d # ds)"
  shows "\<exists>r. streak_loop (Date_of_day d) (map Date_of_day ds) s = s + r
             \<and> (\<forall>i\<le>r. d - int i \<in> set (d # ds))
             \<and> d - int (Suc r) \<notin> set (d # ds)"
  using assms
proof (induction ds arbitrary: d s)
  case Nil
  have "streak_loop (Date_of_day d) (map Date_of_day []) s = s + 0
        \<and> (\<forall>i\<le>0. d - int i \<in> set [d]) \<and> d - int (Suc 0) \<notin> set [d]"
    by simp
  then show ?case by blast
next
  case (Cons e es)
  have lt: "e < d" and below: "\<forall>x \<in> set es. x < e" and tail: "sorted_wrt (>) (e # es)"
    using Cons.prems by auto
  show ?case
  proof (cases "e = d - 1")
    case True
    obtain r where r: "streak_loop (Date_of_day e) (map Date_of_day es) (s + 1) = s + 1 + r"
      "\<forall>i\<le>r. e - int i \<in> set (e # es)" "e - int (Suc r) \<notin> set (e # es)"
      using Cons.IH [OF tail, of "s + 1"] by blast
    have run: "streak_loop (Date_of_day d) (map Date_of_day (e # es)) s = s + Suc r"
      using True r(1) by (simp add: toDateString_day_before Let_def)
    have mem: "\<forall>i\<le>Suc r. d - int i \<in> set (d # e # es)"
    proof (intro allI impI)
      fix i assume i: "i \<le> Suc r"
      show "d - int i \<in> set (d # e # es)"
      proof (cases i)
        case 0
        then show ?thesis by simp
      next
        case (Suc j)
        then have "j \<le> r" using i by simp
        then have "e - int j \<in> set (e # es)" using r(2) by blast
        moreover have "d - int i = e - int j" using True Suc by simp
        ultimately show ?thesis by simp
      qed
    qed
    have eq: "d - int (Suc (Suc r)) = e - int (Suc r)"
      using True by simp
    have "e - int (Suc r) \<notin> set (d # e # es)"
      using r(3) lt by auto
    then have out: "d - int (Suc (Suc r)) \<notin> set (d # e # es)"
      unfolding eq .
    from run mem out show ?thesis by blast
  next
    case False
    have run: "streak_loop (Date_of_day d) (map Date_of_day (e # es)) s = s + 0"
      using False by (simp add: toDateString_day_before Let_def)
    have "d - 1 \<notin> set (d # e # es)"
      using False lt below by auto
    then have "(\<forall>i\<le>(0::nat). d - int i \<in> set (d # e # es)) \<and> d - int (Suc 0) \<notin> set (d # e # es)"
      by simp
    with run show ?thesis by blast
  qed
qed

text \<open>The sorted array of midnights, as days.\<close>

lemma sorted_days:
  assumes "distinct us"
  defines "ys \<equiv> sort_key (\<lambda>t. - t) (map Date_of_day us)"
  shows "ys = map Date_of_day (map toDateString ys)"
    and "sorted_wrt (>) (map toDateString ys)"
    and "set (map toDateString ys) = set us"
proof -
  have set_ys: "set ys = Date_of_day ` set us"
    by (simp add: ys_def)
  then have "\<forall>y \<in> set ys. Date_of_day (toDateString y) = y"
    by auto
  then show "ys = map Date_of_day (map toDateString ys)"
    by (simp add: map_idI)
  have inj: "inj Date_of_day"
    by (rule injI) (simp add: Date_of_day_def ms_per_day_def)
  have "distinct ys"
    unfolding ys_def using assms(1) inj by (simp add: distinct_map inj_on_def)
  moreover have "sorted (map (\<lambda>t. - t) ys)"
    unfolding ys_def by (rule sorted_sort_key)
  ultimately have "sorted_wrt (<) (map (\<lambda>t. - t) ys)"
    by (simp add: strict_sorted_iff distinct_map inj_on_def)
  then have desc: "sorted_wrt (>) ys"
    by (simp add: sorted_wrt_map)
  have "sorted_wrt (\<lambda>x y. toDateString x > toDateString y) ys"
  proof (rule sorted_wrt_mono_rel [OF _ desc])
    fix x y assume "x \<in> set ys" "y \<in> set ys" "x > y"
    then obtain a b where ab: "x = Date_of_day a" "y = Date_of_day b"
      and "Date_of_day a > Date_of_day b"
      using set_ys by auto
    then have "a > b"
      by (simp add: Date_of_day_def ms_per_day_def)
    then show "toDateString x > toDateString y"
      using ab by simp
  qed
  then show "sorted_wrt (>) (map toDateString ys)"
    by (simp add: sorted_wrt_map)
  show "set (map toDateString ys) = set us"
    using set_ys by (simp add: image_image)
qed

lemma Max_sorted_desc:
  assumes "sorted_wrt (>) (d # ds)"
  shows "Max (set (d # ds)) = (d::int)"
  using assms by (intro Max_eqI) auto

text \<open>What the function computes, in terms of the set of review days.\<close>

text \<open>
  The dates that the function collects are the \<^verbatim>\<open>last_review\<close> fields of the
  stored states that parse, so their days are the review days of the stored states.
\<close>

lemma set_reviewDates:
  "set (reviewDates db) =
     {t. \<exists>word \<in> set (words db). \<exists>p.
           fsrs_params word = Some (Json p) \<and> last_review p = Some t}"
proof -
  have collected: "set (List.map_filter f ws) = {t. \<exists>w \<in> set ws. f w = Some t}"
    for f :: "SavedWord \<Rightarrow> instant option" and ws
    by (induction ws) (auto simp add: map_filter_simps split: option.splits)
  have stored: "(case fsrs_params word of
                    None \<Rightarrow> None
                  | Some s \<Rightarrow> (case JSON_parse s of Inl e \<Rightarrow> None
                                                    | Inr params \<Rightarrow> last_review params)) = Some t
                 \<longleftrightarrow> (\<exists>p. fsrs_params word = Some (Json p) \<and> last_review p = Some t)"
    for word t
  proof (cases "fsrs_params word")
    case None
    then show ?thesis by simp
  next
    case (Some s)
    then show ?thesis by (cases s) simp_all
  qed
  show ?thesis
    by (simp add: reviewDates_def collected stored)
qed

lemma review_days_eq: "review_days db = toDateString ` set (reviewDates db)"
  by (auto simp add: review_days_def set_reviewDates)

lemma calculateStreakDays_char:
  assumes "reviewDates db \<noteq> []"
  defines "D \<equiv> review_days db"
  shows "\<exists>k\<ge>1. (\<forall>i<k. Max D - int i \<in> D) \<and> Max D - int k \<notin> D
          \<and> calculateStreakDays now db =
              Inr (if Max D \<noteq> toDateString now \<and> Max D \<noteq> toDateString now - 1 then 0 else k)"
proof -
  define us where "us = uniqueDayStrings (reviewDates db) []"
  define ys where "ys = sort_key (\<lambda>t. - t) (map Date_of_day us)"
  have us: "distinct us" "set us = D"
    by (simp_all add: us_def distinct_uniqueDayStrings set_uniqueDayStrings D_def review_days_eq)
  have ys: "ys = map Date_of_day (map toDateString ys)" "sorted_wrt (>) (map toDateString ys)"
    "set (map toDateString ys) = set us"
    unfolding ys_def by (rule sorted_days [OF us(1)])+
  have "D \<noteq> {}"
    using assms(1) by (simp add: D_def review_days_eq)
  then obtain d ds where dds: "map toDateString ys = d # ds"
    using ys(3) us(2) by (cases "map toDateString ys") auto
  have ys_eq: "ys = Date_of_day d # map Date_of_day ds"
    using ys(1) dds by simp
  have sorted: "sorted_wrt (>) (d # ds)" and D_eq: "D = set (d # ds)"
    using ys(2,3) us(2) dds by simp_all
  have Max: "Max D = d"
    using Max_sorted_desc [OF sorted] D_eq by simp
  obtain r where r: "streak_loop (Date_of_day d) (map Date_of_day ds) 1 = 1 + r"
    "\<forall>i\<le>r. d - int i \<in> set (d # ds)" "d - int (Suc r) \<notin> set (d # ds)"
    using streak_loop_run [OF sorted, of 1] by blast
  have "calculateStreakDays now db =
          Inr (if d \<noteq> toDateString now \<and> d \<noteq> toDateString now - 1 then 0 else Suc r)"
    using assms(1) r(1) ys_eq
    by (simp add: calculateStreakDays_def Let_def us_def [symmetric] ys_def [symmetric]
        toDateString_day_before)
  moreover have "\<forall>i<Suc r. Max D - int i \<in> D"
    using r(2) Max D_eq by (simp add: less_Suc_eq_le)
  moreover have "Max D - int (Suc r) \<notin> D"
    using r(3) Max D_eq by simp
  ultimately show ?thesis
    using Max by (intro exI [of _ "Suc r"]) simp
qed

lemma run_of_two:
  fixes T :: int
  assumes "1 \<le> k" and "\<forall>i<k. T - int i \<in> D" and "T - int k \<notin> D"
      and "T - 1 \<in> D" and "T - 2 \<notin> D"
  shows "k = 2"
proof -
  have "k \<noteq> 1" using assms(3,4) by auto
  moreover have "\<not> 3 \<le> k"
  proof
    assume "3 \<le> k"
    then have "2 < k" by simp
    then have "T - int 2 \<in> D" using assms(2) by blast
    then show False using assms(5) by simp
  qed
  ultimately show ?thesis using assms(1) by linarith
qed

text \<open>
  C8. The streak is 0 when no stored state has a last review: every word was never
  reviewed, or has no stored text, or a malformed one. With \<open>review_days\<close> the set of
  days of the \<^verbatim>\<open>last_review\<close> fields of the stored states, the streak is 0 when
  the latest review day is neither today nor yesterday; otherwise it is the number
  \<open>k\<close> of days of the run that ends at the latest review day: that day and the
  \<open>k - 1\<close> days before it are review days and the day \<open>k\<close> days before it is not.
  Reviews on today and yesterday only give 2, and so do reviews on today, yesterday
  and three days ago.
\<close>

theorem calculateStreakDays_spec:
  "((\<forall>word \<in> set (words db). \<forall>p. fsrs_params word = Some (Json p) \<longrightarrow> last_review p = None)
      \<longrightarrow> calculateStreakDays now db = Inr 0)
   \<and> (review_days db \<noteq> {} \<longrightarrow> Max (review_days db) \<noteq> toDateString now \<longrightarrow>
        Max (review_days db) \<noteq> toDateString now - 1 \<longrightarrow> calculateStreakDays now db = Inr 0)
   \<and> (review_days db \<noteq> {} \<longrightarrow>
        Max (review_days db) = toDateString now \<or> Max (review_days db) = toDateString now - 1 \<longrightarrow>
        (\<exists>k\<ge>1. calculateStreakDays now db = Inr k
                \<and> (\<forall>i<k. Max (review_days db) - int i \<in> review_days db)
                \<and> Max (review_days db) - int k \<notin> review_days db))
   \<and> (review_days db = {toDateString now, toDateString now - 1} \<longrightarrow>
        calculateStreakDays now db = Inr 2)
   \<and> (review_days db = {toDateString now, toDateString now - 1, toDateString now - 3} \<longrightarrow>
        calculateStreakDays now db = Inr 2)"
proof -
  have empty: "review_days db = {} \<longleftrightarrow> reviewDates db = []"
    by (simp add: review_days_eq)
  have none: "calculateStreakDays now db = Inr 0"
    if "\<forall>word \<in> set (words db). \<forall>p. fsrs_params word = Some (Json p) \<longrightarrow> last_review p = None"
  proof -
    have "set (reviewDates db) = {}"
      using that by (auto simp add: set_reviewDates)
    then show ?thesis by (simp add: calculateStreakDays_def)
  qed
  have char: "\<exists>k\<ge>1. (\<forall>i<k. Max (review_days db) - int i \<in> review_days db)
          \<and> Max (review_days db) - int k \<notin> review_days db
          \<and> calculateStreakDays now db =
              Inr (if Max (review_days db) \<noteq> toDateString now
                      \<and> Max (review_days db) \<noteq> toDateString now - 1 then 0 else k)"
    if "review_days db \<noteq> {}"
    using that empty calculateStreakDays_char [of db now] by simp
  have broken: "calculateStreakDays now db = Inr 0"
    if "review_days db \<noteq> {}" "Max (review_days db) \<noteq> toDateString now"
       "Max (review_days db) \<noteq> toDateString now - 1"
    using char [OF that(1)] that(2,3) by auto
  have run: "\<exists>k\<ge>1. calculateStreakDays now db = Inr k
                \<and> (\<forall>i<k. Max (review_days db) - int i \<in> review_days db)
                \<and> Max (review_days db) - int k \<notin> review_days db"
    if "review_days db \<noteq> {}"
       "Max (review_days db) = toDateString now \<or> Max (review_days db) = toDateString now - 1"
    using char [OF that(1)] that(2) by auto
  have two: "calculateStreakDays now db = Inr 2"
    if D: "review_days db = {toDateString now, toDateString now - 1}"
  proof -
    have M: "Max (review_days db) = toDateString now"
      unfolding D by simp
    obtain k where k: "1 \<le> k" "calculateStreakDays now db = Inr k"
      "\<forall>i<k. toDateString now - int i \<in> review_days db"
      "toDateString now - int k \<notin> review_days db"
      using run [of] D M by auto
    have "k = 2"
      by (rule run_of_two [OF k(1,3,4)]) (simp_all add: D)
    then show ?thesis using k(2) by simp
  qed
  have gap: "calculateStreakDays now db = Inr 2"
    if D: "review_days db = {toDateString now, toDateString now - 1, toDateString now - 3}"
  proof -
    have M: "Max (review_days db) = toDateString now"
      unfolding D by simp
    obtain k where k: "1 \<le> k" "calculateStreakDays now db = Inr k"
      "\<forall>i<k. toDateString now - int i \<in> review_days db"
      "toDateString now - int k \<notin> review_days db"
      using run [of] D M by auto
    have "k = 2"
      by (rule run_of_two [OF k(1,3,4)]) (simp_all add: D)
    then show ?thesis using k(2) by simp
  qed
  from none broken run two gap show ?thesis by blast
qed

text \<open>
  The never-reviewed words of the example contribute no day: its review days are the
  days of \<open>ts\<close>.
\<close>

lemma review_days_example_reviews:
  "review_days (example_reviews ts) = toDateString ` set ts"
proof -
  have "reviewDates (example_reviews ts) = map snd (enumerate 4 ts)"
    unfolding reviewDates_def example_reviews_def
    by (induction ts rule: rev_induct)
       (simp_all add: map_filter_def example_word_def enumerate_append_eq saveWord_params_def)
  then show ?thesis
    by (simp add: review_days_eq)
qed

text \<open>
  A word that \<^verbatim>\<open>saveWord\<close> registered and nobody reviewed gives the streak 0, alone
  and beside a word with a malformed text and one with no text; beside those three
  words, a review two days ago gives 0, reviews today and yesterday give 2, and
  reviews today, yesterday and three days ago give 2.
\<close>

theorem calculateStreakDays_spec_witness:
  "map_option last_review (getMemoryState registered 1) = Some None
   \<and> calculateStreakDays (Date_of_day 10) registered = Inr 0
   \<and> calculateStreakDays (Date_of_day 10) (example_reviews []) = Inr 0
   \<and> review_days (example_reviews [Date_of_day 8]) = {8}
   \<and> calculateStreakDays (Date_of_day 10) (example_reviews [Date_of_day 8]) = Inr 0
   \<and> review_days (example_reviews [Date_of_day 9, Date_of_day 10]) = {10, 9}
   \<and> calculateStreakDays (Date_of_day 10) (example_reviews [Date_of_day 9, Date_of_day 10]) = Inr 2
   \<and> review_days (example_reviews [Date_of_day 7, Date_of_day 10, Date_of_day 9, Date_of_day 10])
        = {10, 9, 7}
   \<and> calculateStreakDays (Date_of_day 10)
        (example_reviews [Date_of_day 7, Date_of_day 10, Date_of_day 9, Date_of_day 10]) = Inr 2"
proof -
  have r: "\<forall>word \<in> set (words registered). \<forall>p.
             fsrs_params word = Some (Json p) \<longrightarrow> last_review p = None"
    by (simp add: registered_eq saveWord_params_def)
  have e: "\<forall>word \<in> set (words (example_reviews [])). \<forall>p.
             fsrs_params word = Some (Json p) \<longrightarrow> last_review p = None"
    by (simp add: example_reviews_def example_word_def saveWord_params_def)
  have b: "review_days (example_reviews [Date_of_day 8]) = {8}"
    and c: "review_days (example_reviews [Date_of_day 9, Date_of_day 10]) = {10, 10 - 1}"
    and d: "review_days (example_reviews [Date_of_day 7, Date_of_day 10, Date_of_day 9, Date_of_day 10])
              = {10, 10 - 1, 10 - 3}"
    by (auto simp add: review_days_example_reviews)
  have s: "map_option last_review (getMemoryState registered 1) = Some None"
    by (simp add: registered_state saveWord_params_def)
  show ?thesis
    using calculateStreakDays_spec [of registered "Date_of_day 10"]
      calculateStreakDays_spec [of "example_reviews []" "Date_of_day 10"]
      calculateStreakDays_spec [of "example_reviews [Date_of_day 8]" "Date_of_day 10"]
      calculateStreakDays_spec [of "example_reviews [Date_of_day 9, Date_of_day 10]" "Date_of_day 10"]
      calculateStreakDays_spec [of "example_reviews [Date_of_day 7, Date_of_day 10, Date_of_day 9, Date_of_day 10]" "Date_of_day 10"]
    by (simp add: r e b c d s)
qed

end
